theory Spec2Isabelle
  imports Complex_Main
begin

section \<open>Numbers of the tuner\<close>

text \<open>
  The audio backend computes with IEEE-754 doubles (Python \<^verbatim>\<open>float\<close>, numpy
  \<^verbatim>\<open>float64\<close>). Two things are kept apart in this development.

  \<^item> Finite values are exact reals: rounding and overflow of finite operations are not
    modelled. Every statement below about a finite quantity is a statement about the
    arithmetic the code writes down, carried out exactly. There are two exceptions,
    where the outcome turns on rounding: the comparison of the volume gate, which numpy
    carries out in float32, and the refinement of the peak with every operation rounded
    to binary64 (\<open>peak_refined_rounded\<close>).
  \<^item> The special values are explicit, since the control flow of the loop depends on them:
    a numpy scalar division by zero does not raise, it yields an infinity or NaN
    (with a warning); comparisons with NaN are false; \<^verbatim>\<open>math.log2\<close> raises
    \<^verbatim>\<open>ValueError\<close> on arguments that are not positive.

  Signed zeros are identified with \<open>Fin 0\<close>; a zero divisor is taken as \<open>+0.0\<close>, which is
  what the two zero divisors of the source are (the integer \<^verbatim>\<open>0\<close> of
  \<^verbatim>\<open>target_freq\<close>, and twice a sum that cancelled).
\<close>

datatype fl = Fin real | PInf | NInf | NaN

datatype pyerror = IndexError | KeyError | ValueError

fun fl_neg :: "fl \<Rightarrow> fl" where
  "fl_neg (Fin a) = Fin (- a)"
| "fl_neg PInf = NInf"
| "fl_neg NInf = PInf"
| "fl_neg NaN = NaN"

fun fl_add :: "fl \<Rightarrow> fl \<Rightarrow> fl" where
  "fl_add NaN _ = NaN"
| "fl_add _ NaN = NaN"
| "fl_add (Fin a) (Fin b) = Fin (a + b)"
| "fl_add PInf NInf = NaN"
| "fl_add NInf PInf = NaN"
| "fl_add PInf _ = PInf"
| "fl_add _ PInf = PInf"
| "fl_add NInf _ = NInf"
| "fl_add _ NInf = NInf"

definition fl_sub :: "fl \<Rightarrow> fl \<Rightarrow> fl" where
  "fl_sub x y = fl_add x (fl_neg y)"

fun fl_mul :: "fl \<Rightarrow> fl \<Rightarrow> fl" where
  "fl_mul NaN _ = NaN"
| "fl_mul _ NaN = NaN"
| "fl_mul (Fin a) (Fin b) = Fin (a * b)"
| "fl_mul (Fin a) PInf = (if a > 0 then PInf else if a < 0 then NInf else NaN)"
| "fl_mul (Fin a) NInf = (if a > 0 then NInf else if a < 0 then PInf else NaN)"
| "fl_mul PInf (Fin b) = (if b > 0 then PInf else if b < 0 then NInf else NaN)"
| "fl_mul NInf (Fin b) = (if b > 0 then NInf else if b < 0 then PInf else NaN)"
| "fl_mul PInf PInf = PInf"
| "fl_mul NInf NInf = PInf"
| "fl_mul PInf NInf = NInf"
| "fl_mul NInf PInf = NInf"

fun fl_div :: "fl \<Rightarrow> fl \<Rightarrow> fl" where
  "fl_div NaN _ = NaN"
| "fl_div _ NaN = NaN"
| "fl_div (Fin a) (Fin b) =
     (if b \<noteq> 0 then Fin (a / b)
      else if a > 0 then PInf else if a < 0 then NInf else NaN)"
| "fl_div (Fin a) PInf = Fin 0"
| "fl_div (Fin a) NInf = Fin 0"
| "fl_div PInf (Fin b) = (if b \<ge> 0 then PInf else NInf)"
| "fl_div NInf (Fin b) = (if b \<ge> 0 then NInf else PInf)"
| "fl_div PInf PInf = NaN"
| "fl_div PInf NInf = NaN"
| "fl_div NInf PInf = NaN"
| "fl_div NInf NInf = NaN"

fun fl_abs :: "fl \<Rightarrow> fl" where
  "fl_abs (Fin a) = Fin \<bar>a\<bar>"
| "fl_abs PInf = PInf"
| "fl_abs NInf = PInf"
| "fl_abs NaN = NaN"

fun fl_lt :: "fl \<Rightarrow> fl \<Rightarrow> bool" where
  "fl_lt NaN _ = False"
| "fl_lt _ NaN = False"
| "fl_lt (Fin a) (Fin b) = (a < b)"
| "fl_lt (Fin a) PInf = True"
| "fl_lt NInf (Fin b) = True"
| "fl_lt NInf PInf = True"
| "fl_lt PInf _ = False"
| "fl_lt _ NInf = False"

definition fl_gt :: "fl \<Rightarrow> fl \<Rightarrow> bool" where
  "fl_gt x y = fl_lt y x"

definition fl_le :: "fl \<Rightarrow> fl \<Rightarrow> bool" where
  "fl_le x y = (x \<noteq> NaN \<and> y \<noteq> NaN \<and> (fl_lt x y \<or> x = y))"

text \<open>\<^verbatim>\<open>math.log2\<close>: a domain error for zero, negative numbers and \<open>-inf\<close>.\<close>

fun math_log2 :: "fl \<Rightarrow> pyerror + fl" where
  "math_log2 (Fin a) = (if a > 0 then Inr (Fin (log 2 a)) else Inl ValueError)"
| "math_log2 PInf = Inr PInf"
| "math_log2 NInf = Inl ValueError"
| "math_log2 NaN = Inr NaN"

text \<open>
  The builtins \<^verbatim>\<open>min(a, b)\<close> and \<^verbatim>\<open>max(a, b)\<close> keep the first argument unless the
  second compares strictly smaller (larger).
\<close>

definition py_min :: "fl \<Rightarrow> fl \<Rightarrow> fl" where
  "py_min a b = (if fl_lt b a then b else a)"

definition py_max :: "fl \<Rightarrow> fl \<Rightarrow> fl" where
  "py_max a b = (if fl_gt b a then b else a)"

subsection \<open>Rounding\<close>

text \<open>
  Rounding to the nearest integer, ties to the even one.
\<close>

definition rne :: "real \<Rightarrow> int" where
  "rne y =
     (let f = \<lfloor>y\<rfloor>
      in if y - of_int f < 1 / 2 then f
         else if 1 / 2 < y - of_int f then f + 1
         else if even f then f else f + 1)"

text \<open>
  Rounding of a real to the nearest binary floating-point number with a significand of
  \<open>p\<close> bits, ties to even, which is the rounding of every IEEE-754 operation. The
  exponent is unbounded: overflow to an infinity and subnormal numbers are not
  modelled.
\<close>

definition round_fp :: "nat \<Rightarrow> real \<Rightarrow> real" where
  "round_fp p x =
     (if x = 0 then 0
      else (let e = \<lfloor>log 2 \<bar>x\<bar>\<rfloor>;
                u = 2 powr (of_int e - real p + 1)
            in of_int (rne (x / u)) * u))"

definition f32 :: "real \<Rightarrow> real" where
  "f32 = round_fp 24"

definition f64 :: "real \<Rightarrow> real" where
  "f64 = round_fp 53"

text \<open>The result of an operation, rounded when it is finite.\<close>

definition fl_round :: "(real \<Rightarrow> real) \<Rightarrow> fl \<Rightarrow> fl" where
  "fl_round rnd x = (case x of Fin a \<Rightarrow> Fin (rnd a) | _ \<Rightarrow> x)"

section \<open>Constants and the reference tuning table\<close>

definition SAMPLE_RATE :: real where
  "SAMPLE_RATE = 44100"

definition BUFFER_SIZE :: nat where
  "BUFFER_SIZE = 4096"

text \<open>The dictionary in insertion order, which is the order \<^verbatim>\<open>items()\<close> iterates in.\<close>

definition GUITAR_STRINGS :: "(string \<times> real) list" where
  "GUITAR_STRINGS =
     [(''E2'', 8241 / 100), (''A2'', 110), (''D3'', 14683 / 100),
      (''G3'', 196), (''B3'', 24694 / 100), (''E4'', 32963 / 100)]"

definition ORDERED_KEYS :: "string list" where
  "ORDERED_KEYS = [''E2'', ''A2'', ''D3'', ''G3'', ''B3'', ''E4'']"

definition NOISE_THRESHOLD :: real where
  "NOISE_THRESHOLD = 2 / 100"

section \<open>The audio backend\<close>

text \<open>
  Of the backend object only \<^verbatim>\<open>manual_target\<close> matters to the processing of a buffer:
  \<^verbatim>\<open>None\<close> or a frequency of the table.
\<close>

record backend =
  manual_target :: "real option"

definition init_backend :: backend where
  "init_backend = \<lparr>manual_target = None\<rparr>"

text \<open>
  \<^verbatim>\<open>set_manual_target\<close> returns the exception it raised, if any, and the object as it
  is after the call. The dictionary lookup raises before the attribute is assigned.
\<close>

definition set_manual_target :: "backend \<Rightarrow> string \<Rightarrow> pyerror option \<times> backend" where
  "set_manual_target self note_name =
     (if note_name = ''Auto'' then (None, self\<lparr>manual_target := None\<rparr>)
      else (case map_of GUITAR_STRINGS note_name of
              None \<Rightarrow> (Some KeyError, self)
            | Some f \<Rightarrow> (None, self\<lparr>manual_target := Some f\<rparr>)))"

subsection \<open>Volume gate\<close>

text \<open>
  Line 74 computes \<^verbatim>\<open>volume = np.sqrt(np.mean(samples**2))\<close> with numpy, on a float32
  array: the result is a float32 scalar (NaN for an empty array). Line 75 compares it
  with the Python float \<^verbatim>\<open>NOISE_THRESHOLD\<close>. Under the promotion rules of numpy 2 a
  Python float adapts to the numpy operand, so the comparison is one of float32 numbers:
  the volume against 0.02 rounded to float32.
\<close>

definition volume_gate :: "fl \<Rightarrow> bool" where
  "volume_gate volume = fl_lt volume (Fin (f32 NOISE_THRESHOLD))"

subsection \<open>Pitch detection on the autocorrelation\<close>

text \<open>\<^verbatim>\<open>np.diff\<close>: the differences of neighbours.\<close>

fun np_diff :: "real list \<Rightarrow> real list" where
  "np_diff (a # b # xs) = (b - a) # np_diff (b # xs)"
| "np_diff _ = []"

text \<open>\<^verbatim>\<open>np.where(d > 0)[0][0]\<close>: the first index of a positive entry, or IndexError.\<close>

fun first_positive :: "real list \<Rightarrow> nat option" where
  "first_positive [] = None"
| "first_positive (d # ds) = (if d > 0 then Some 0 else map_option Suc (first_positive ds))"

text \<open>
  \<^verbatim>\<open>np.argmax\<close>: the index of the first occurrence of the maximum; ValueError on an
  empty array.
\<close>

fun argmax_from :: "real list \<Rightarrow> nat \<Rightarrow> nat \<Rightarrow> real \<Rightarrow> nat" where
  "argmax_from [] i best_i best_v = best_i"
| "argmax_from (x # xs) i best_i best_v =
     (if x > best_v then argmax_from xs (Suc i) i x
      else argmax_from xs (Suc i) best_i best_v)"

fun np_argmax :: "real list \<Rightarrow> pyerror + nat" where
  "np_argmax [] = Inl ValueError"
| "np_argmax (x # xs) = Inr (argmax_from xs 1 0 x)"

text \<open>
  Lines 83 to 88. The inner handler catches IndexError only; any other exception reaches
  the handler of the loop body, so both are returned as errors here.
\<close>

definition find_peak :: "real list \<Rightarrow> pyerror + nat" where
  "find_peak corr =
     (case first_positive (np_diff corr) of
        None \<Rightarrow> Inl IndexError
      | Some start \<Rightarrow>
          (case np_argmax (drop start corr) of
             Inl e \<Rightarrow> Inl e
           | Inr k \<Rightarrow> Inr (k + start)))"

text \<open>Lines 90 to 96: parabolic interpolation around an interior peak.\<close>

definition denominator :: "real list \<Rightarrow> nat \<Rightarrow> real" where
  "denominator corr peak =
     corr ! (peak - 1) - 2 * corr ! peak + corr ! (peak + 1)"

definition peak_refined :: "real list \<Rightarrow> nat \<Rightarrow> fl" where
  "peak_refined corr peak =
     (if 0 < peak \<and> peak < length corr - 1 then
        (let alpha = corr ! (peak - 1);
             beta = corr ! peak;
             gamma = corr ! (peak + 1)
         in fl_add (Fin (real peak))
              (fl_div (Fin (alpha - gamma)) (Fin (2 * (alpha - 2 * beta + gamma)))))
      else Fin (real peak))"

text \<open>Line 98.\<close>

definition freq_of :: "real list \<Rightarrow> nat \<Rightarrow> fl" where
  "freq_of corr peak = fl_div (Fin SAMPLE_RATE) (peak_refined corr peak)"


definition peak_refined_rounded :: "(real \<Rightarrow> real) \<Rightarrow> real list \<Rightarrow> nat \<Rightarrow> fl" where
  "peak_refined_rounded rnd corr peak =
     (if 0 < peak \<and> peak < length corr - 1 then
        (let alpha = corr ! (peak - 1);
             beta = corr ! peak;
             gamma = corr ! (peak + 1)
         in fl_round rnd (fl_add (Fin (real peak))
              (fl_round rnd (fl_div (Fin (rnd (alpha - gamma)))
                 (Fin (rnd (2 * rnd (rnd (alpha - rnd (2 * beta)) + gamma))))))))
      else Fin (real peak))"

definition freq_of_rounded :: "(real \<Rightarrow> real) \<Rightarrow> real list \<Rightarrow> nat \<Rightarrow> fl" where
  "freq_of_rounded rnd corr peak =
     fl_round rnd (fl_div (Fin SAMPLE_RATE) (peak_refined_rounded rnd corr peak))"

subsection \<open>Target resolution\<close>

text \<open>
  Manual mode (lines 107 to 111): the loop keeps the name of the last entry whose
  frequency equals the stored one.
\<close>

fun name_loop :: "(string \<times> real) list \<Rightarrow> real \<Rightarrow> string \<Rightarrow> string" where
  "name_loop [] target_freq closest_note_name = closest_note_name"
| "name_loop ((name, f) # rest) target_freq closest_note_name =
     name_loop rest target_freq (if f = target_freq then name else closest_note_name)"

text \<open>
  Automatic mode (lines 113 to 119): the state of the loop is
  \<open>(min_dist, target_freq, closest_note_name)\<close>.
\<close>

fun nearest_loop :: "(string \<times> real) list \<Rightarrow> fl \<Rightarrow> fl \<times> real \<times> string \<Rightarrow> fl \<times> real \<times> string" where
  "nearest_loop [] freq st = st"
| "nearest_loop ((name, f_target) # rest) freq (min_dist, target_freq, closest_note_name) =
     (let dist = fl_abs (fl_sub (Fin f_target) freq)
      in if fl_lt dist min_dist then nearest_loop rest freq (dist, f_target, name)
         else nearest_loop rest freq (min_dist, target_freq, closest_note_name))"

text \<open>
  \<^verbatim>\<open>if self.manual_target:\<close> is false for \<^verbatim>\<open>None\<close> and for a zero frequency.
\<close>

definition truthy :: "real option \<Rightarrow> bool" where
  "truthy m = (case m of None \<Rightarrow> False | Some f \<Rightarrow> f \<noteq> 0)"

definition resolve_target :: "real option \<Rightarrow> fl \<Rightarrow> real \<times> string" where
  "resolve_target manual freq =
     (if truthy manual then
        (let target_freq = the manual
         in (target_freq, name_loop GUITAR_STRINGS target_freq ''''))
      else
        (case nearest_loop GUITAR_STRINGS freq (PInf, 0, '''') of
           (min_dist, target_freq, closest_note_name) \<Rightarrow> (target_freq, closest_note_name)))"

subsection \<open>Cents\<close>

text \<open>
  Lines 121 to 124. \<^verbatim>\<open>freq\<close> is a numpy scalar, so the division itself never raises;
  the handler turns a domain error of the logarithm into 0 cents, any other exception
  would leave the \<^verbatim>\<open>try\<close>.
\<close>

definition cents_of :: "fl \<Rightarrow> real \<Rightarrow> pyerror + fl" where
  "cents_of freq target_freq =
     (case math_log2 (fl_div freq (Fin target_freq)) of
        Inl e \<Rightarrow> (if e = ValueError then Inr (Fin 0) else Inl e)
      | Inr l \<Rightarrow> Inr (fl_mul (Fin 1200) l))"

subsection \<open>One iteration of the processing loop\<close>

text \<open>
  The arguments of \<^verbatim>\<open>callback_func\<close>: frequency, cents, note name, activity flag.
\<close>

datatype reading = Reading fl fl string bool

text \<open>
  What one iteration on an active stream does with the buffer it read: it calls the
  callback (and then either sleeps 50 ms or not), or it goes on to the next buffer
  without calling it.
\<close>

datatype outcome = Callback reading bool | NoCallback

text \<open>
  \<open>volume\<close> is the float32 scalar of line 74, and \<open>corr\<close> the array of line 81, the
  non-negative lags of the autocorrelation of the windowed samples. numpy computes both
  from the buffer (\<^verbatim>\<open>np.mean\<close>, \<^verbatim>\<open>np.sqrt\<close>, \<^verbatim>\<open>np.hanning\<close>, \<^verbatim>\<open>np.correlate\<close>);
  they are arguments here. Every exception of the body is swallowed by the handler of
  the loop.
\<close>

definition process_loop_step :: "backend \<Rightarrow> fl \<Rightarrow> real list \<Rightarrow> outcome" where
  "process_loop_step self volume corr =
     (if volume_gate volume
      then Callback (Reading (Fin 0) (Fin 0) ''Silence'' False) False
      else
        (case find_peak corr of
           Inl e \<Rightarrow> NoCallback
         | Inr peak \<Rightarrow>
             (let freq = freq_of corr peak
              in if fl_lt freq (Fin 60) \<or> fl_gt freq (Fin 500) then NoCallback
                 else
                   (case resolve_target (manual_target self) freq of
                      (target_freq, closest_note_name) \<Rightarrow>
                        (case cents_of freq target_freq of
                           Inl e \<Rightarrow> NoCallback
                         | Inr cents \<Rightarrow>
                             Callback (Reading freq cents closest_note_name True) True)))))"

section \<open>Presentation of a reading\<close>

text \<open>Lines 193 and 194 of \<^verbatim>\<open>update_ui\<close>: the value of the progress bar.\<close>

definition normalized_val :: "fl \<Rightarrow> fl" where
  "normalized_val cents =
     py_max (Fin 0) (py_min (Fin 1) (fl_div (fl_add cents (Fin 50)) (Fin 100)))"

datatype guide = PERFECT | TooFlat | TooSharp

text \<open>Lines 198 to 209: the colour and guide text.\<close>

definition guide_of :: "fl \<Rightarrow> guide" where
  "guide_of cents =
     (if fl_lt (fl_abs cents) (Fin 5) then PERFECT
      else if fl_lt cents (Fin 0) then TooFlat
      else TooSharp)"

section \<open>Specification of the nearest note\<close>

text \<open>
  The specification's words for automatic mode: the entry of index \<open>i\<close> minimises the
  distance to the detected frequency \<open>x\<close> over the table, and every entry before it
  in the table's order is strictly farther away.
\<close>

definition first_nearest_in :: "(string \<times> real) list \<Rightarrow> real \<Rightarrow> nat \<Rightarrow> bool" where
  "first_nearest_in tbl x i \<longleftrightarrow>
     i < length tbl \<and>
     (\<forall>j<length tbl. \<bar>snd (tbl ! i) - x\<bar> \<le> \<bar>snd (tbl ! j) - x\<bar>) \<and>
     (\<forall>j<i. \<bar>snd (tbl ! i) - x\<bar> < \<bar>snd (tbl ! j) - x\<bar>)"

section \<open>Facts about the table\<close>

lemma map_of_GUITAR_STRINGS:
  "map_of GUITAR_STRINGS n = Some f \<longleftrightarrow>
     (n, f) \<in> {(''E2'', 8241 / 100), (''A2'', 110), (''D3'', 14683 / 100),
               (''G3'', 196), (''B3'', 24694 / 100), (''E4'', 32963 / 100)}"
  by (auto simp: GUITAR_STRINGS_def split: if_splits)

lemma keys_GUITAR_STRINGS: "map fst GUITAR_STRINGS = ORDERED_KEYS"
  by (simp add: GUITAR_STRINGS_def ORDERED_KEYS_def)

section \<open>The peak search\<close>

lemma length_np_diff: "length (np_diff xs) = length xs - 1"
  by (induction xs rule: np_diff.induct) auto

lemma nth_np_diff: "i < length xs - 1 \<Longrightarrow> np_diff xs ! i = xs ! Suc i - xs ! i"
proof (induction xs arbitrary: i rule: np_diff.induct)
  case (1 a b xs)
  then show ?case by (cases i) auto
qed auto

lemma first_positive_Some:
  "first_positive ds = Some i \<Longrightarrow> i < length ds \<and> ds ! i > 0 \<and> (\<forall>j<i. \<not> ds ! j > 0)"
proof (induction ds arbitrary: i)
  case Nil
  then show ?case by simp
next
  case (Cons d ds)
  show ?case
  proof (cases "d > 0")
    case True
    with Cons.prems show ?thesis by simp
  next
    case False
    with Cons.prems obtain k where k: "first_positive ds = Some k" "i = Suc k"
      by auto
    from Cons.IH[OF k(1)] False k(2) show ?thesis
      by (auto simp: nth_Cons split: nat.splits)
  qed
qed

lemma first_positive_None:
  "first_positive ds = None \<longleftrightarrow> (\<forall>d\<in>set ds. \<not> d > 0)"
  by (induction ds) auto

lemma argmax_from_inv:
  assumes "bi < length pre" "\<forall>j<length pre. pre ! j \<le> pre ! bi" "\<forall>j<bi. pre ! j < pre ! bi"
  shows "argmax_from xs (length pre) bi (pre ! bi) < length (pre @ xs) \<and>
         (\<forall>j<length (pre @ xs). (pre @ xs) ! j \<le> (pre @ xs) ! argmax_from xs (length pre) bi (pre ! bi)) \<and>
         (\<forall>j<argmax_from xs (length pre) bi (pre ! bi). (pre @ xs) ! j < (pre @ xs) ! argmax_from xs (length pre) bi (pre ! bi))"
  using assms
proof (induction xs arbitrary: pre bi)
  case Nil
  then show ?case by simp
next
  case (Cons x xs)
  let ?pre = "pre @ [x]"
  show ?case
  proof (cases "x > pre ! bi")
    case True
    have a1: "length pre < length ?pre" by simp
    have a2: "\<forall>j<length ?pre. ?pre ! j \<le> ?pre ! length pre"
      using Cons.prems True by (auto simp: nth_append less_Suc_eq intro: less_imp_le order_trans)
    have a3: "\<forall>j<length pre. ?pre ! j < ?pre ! length pre"
      using Cons.prems True by (auto simp: nth_append intro: le_less_trans)
    from Cons.IH[of "length pre" ?pre, OF a1 a2 a3] True show ?thesis
      by simp
  next
    case False
    have b1: "bi < length ?pre" using Cons.prems by simp
    have b2: "\<forall>j<length ?pre. ?pre ! j \<le> ?pre ! bi"
      using Cons.prems False by (auto simp: nth_append less_Suc_eq)
    have b3: "\<forall>j<bi. ?pre ! j < ?pre ! bi"
      using Cons.prems by (auto simp: nth_append)
    from Cons.IH[of bi ?pre, OF b1 b2 b3] False Cons.prems(1) show ?thesis
      by (simp add: nth_append)
  qed
qed

lemma np_argmax_first_max:
  assumes "np_argmax ys = Inr r"
  shows "r < length ys \<and> (\<forall>j<length ys. ys ! j \<le> ys ! r) \<and> (\<forall>j<r. ys ! j < ys ! r)"
proof (cases ys)
  case Nil
  with assms show ?thesis by simp
next
  case (Cons x xs)
  with assms have r: "r = argmax_from xs (length [x]) 0 ([x] ! 0)" by simp
  have "argmax_from xs (length [x]) 0 ([x] ! 0) < length ([x] @ xs) \<and>
         (\<forall>j<length ([x] @ xs). ([x] @ xs) ! j \<le> ([x] @ xs) ! argmax_from xs (length [x]) 0 ([x] ! 0)) \<and>
         (\<forall>j<argmax_from xs (length [x]) 0 ([x] ! 0). ([x] @ xs) ! j < ([x] @ xs) ! argmax_from xs (length [x]) 0 ([x] ! 0))"
    by (rule argmax_from_inv) auto
  with r Cons show ?thesis by simp
qed

lemma find_peak_Inr:
  assumes "find_peak corr = Inr p"
  shows "0 < p \<and> p < length corr \<and> corr ! (p - 1) < corr ! p \<and>
         (p + 1 < length corr \<longrightarrow> corr ! (p + 1) \<le> corr ! p)"
proof -
  from assms obtain start k where
    st: "first_positive (np_diff corr) = Some start" and
    am: "np_argmax (drop start corr) = Inr k" and p: "p = k + start"
    by (auto simp: find_peak_def split: option.splits sum.splits)
  from first_positive_Some[OF st] have s1: "start < length corr - 1" and s2: "np_diff corr ! start > 0"
    by (auto simp: length_np_diff)
  from s2 s1 have rise: "corr ! start < corr ! Suc start"
    by (simp add: nth_np_diff)
  from np_argmax_first_max[OF am] have
    k1: "k < length corr - start" and
    k2: "\<forall>j<length corr - start. corr ! (start + j) \<le> corr ! (start + k)" and
    k3: "\<forall>j<k. corr ! (start + j) < corr ! (start + k)"
    using s1 by auto
  have kpos: "k > 0"
  proof (rule ccontr)
    assume "\<not> k > 0"
    then have "k = 0" by simp
    moreover from k2 s1 have "corr ! (start + 1) \<le> corr ! (start + k)"
      by (metis Suc_eq_plus1 less_diff_conv add.commute)
    ultimately show False using rise by simp
  qed
  have "corr ! (p - 1) < corr ! p"
  proof -
    from kpos have "k - 1 < k" by simp
    with k3 have "corr ! (start + (k - 1)) < corr ! (start + k)" by blast
    moreover have "start + (k - 1) = p - 1" using kpos p by simp
    moreover have "start + k = p" using p by simp
    ultimately show ?thesis by simp
  qed
  moreover have "p + 1 < length corr \<longrightarrow> corr ! (p + 1) \<le> corr ! p"
  proof
    assume "p + 1 < length corr"
    then have "k + 1 < length corr - start" using p by simp
    with k2 have "corr ! (start + (k + 1)) \<le> corr ! (start + k)" by blast
    then show "corr ! (p + 1) \<le> corr ! p" using p by (simp add: add.commute add.left_commute)
  qed
  moreover have "0 < p" using kpos p by simp
  moreover have "p < length corr" using k1 p by simp
  ultimately show ?thesis by blast
qed

lemma find_peak_denominator:
  assumes "find_peak corr = Inr p" "p < length corr - 1"
  shows "denominator corr p < 0"
  using find_peak_Inr[OF assms(1)] assms(2) by (auto simp: denominator_def)

section \<open>The refined lag of a found peak\<close>

lemma peak_refined_interior:
  assumes "0 < peak" "peak < length corr - 1" "denominator corr peak \<noteq> 0"
  shows "peak_refined corr peak =
           Fin (real peak + (corr ! (peak - 1) - corr ! (peak + 1)) / (2 * denominator corr peak))"
  using assms by (simp add: peak_refined_def denominator_def Let_def)

lemma peak_refined_boundary:
  "\<not> (0 < peak \<and> peak < length corr - 1) \<Longrightarrow> peak_refined corr peak = Fin (real peak)"
  by (auto simp: peak_refined_def)

lemma parabola_shift_bound:
  fixes a b g :: real
  assumes "a < b" "g \<le> b"
  shows "- (1 / 2) < (a - g) / (2 * (a - 2 * b + g))"
proof -
  let ?d = "a - 2 * b + g"
  have d: "?d < 0" using assms by simp
  have "(a - g) / (2 * ?d) + 1 / 2 = (2 * (a - b)) / (2 * ?d)"
    using d by (simp add: field_simps)
  moreover have "(2 * (a - b)) / (2 * ?d) > 0"
    using d assms by (simp add: divide_neg_neg)
  ultimately show ?thesis by linarith
qed

lemma find_peak_lag:
  assumes "find_peak corr = Inr p"
  shows "\<exists>l. peak_refined corr p = Fin l \<and> real p - 1 / 2 < l"
proof (cases "p < length corr - 1")
  case True
  from find_peak_Inr[OF assms] True have f: "0 < p" "corr ! (p - 1) < corr ! p" "corr ! (p + 1) \<le> corr ! p"
    by auto
  have dn: "denominator corr p \<noteq> 0" using find_peak_denominator[OF assms True] by simp
  have "- (1 / 2) < (corr ! (p - 1) - corr ! (p + 1)) / (2 * denominator corr p)"
    unfolding denominator_def using f(2,3) by (rule parabola_shift_bound)
  then show ?thesis using peak_refined_interior[OF f(1) True dn] by simp
next
  case False
  then show ?thesis by (simp add: peak_refined_boundary)
qed

lemma find_peak_freq:
  assumes "find_peak corr = Inr p"
  shows "\<exists>x. freq_of corr p = Fin x \<and> 0 < x"
proof -
  from find_peak_lag[OF assms] obtain l where l: "peak_refined corr p = Fin l" "real p - 1 / 2 < l"
    by blast
  from find_peak_Inr[OF assms] have "1 \<le> real p" by simp
  with l(2) have "0 < l" by simp
  then show ?thesis using l(1) by (simp add: freq_of_def SAMPLE_RATE_def)
qed


section \<open>The loop of automatic mode\<close>

lemma first_nearest_in_unique:
  "first_nearest_in tbl x i \<Longrightarrow> first_nearest_in tbl x k \<Longrightarrow> i = k"
  unfolding first_nearest_in_def
  by (metis linorder_neqE_nat not_less)

lemma first_nearest_in_keep:
  assumes "first_nearest_in pre x i" "\<not> \<bar>f - x\<bar> < \<bar>snd (pre ! i) - x\<bar>"
  shows "first_nearest_in (pre @ [(name, f)]) x i"
  using assms unfolding first_nearest_in_def
  by (auto simp: nth_append less_Suc_eq)

lemma first_nearest_in_replace:
  assumes "first_nearest_in pre x i" "\<bar>f - x\<bar> < \<bar>snd (pre ! i) - x\<bar>"
  shows "first_nearest_in (pre @ [(name, f)]) x (length pre)"
proof -
  have "\<forall>j<length pre. \<bar>f - x\<bar> < \<bar>snd (pre ! j) - x\<bar>"
    using assms unfolding first_nearest_in_def by (meson less_le_trans)
  then show ?thesis
    unfolding first_nearest_in_def by (auto simp: nth_append less_Suc_eq)
qed

lemma nearest_loop_invariant:
  assumes "first_nearest_in pre x i"
  shows "\<exists>k. first_nearest_in (pre @ rest) x k \<and>
           nearest_loop rest (Fin x) (Fin \<bar>snd (pre ! i) - x\<bar>, snd (pre ! i), fst (pre ! i)) =
             (Fin \<bar>snd ((pre @ rest) ! k) - x\<bar>, snd ((pre @ rest) ! k), fst ((pre @ rest) ! k))"
  using assms
proof (induction rest arbitrary: pre i)
  case Nil
  then show ?case by auto
next
  case (Cons e rest)
  obtain name f where e: "e = (name, f)" by (cases e)
  let ?pre = "pre @ [(name, f)]"
  have app: "?pre @ rest = pre @ e # rest" by (simp add: e)
  have i: "i < length pre" using Cons.prems by (simp add: first_nearest_in_def)
  show ?case
  proof (cases "\<bar>f - x\<bar> < \<bar>snd (pre ! i) - x\<bar>")
    case True
    from first_nearest_in_replace[OF Cons.prems True]
    have "first_nearest_in ?pre x (length pre)" .
    from Cons.IH[OF this] True show ?thesis
      unfolding app by (simp add: e fl_sub_def)
  next
    case False
    from first_nearest_in_keep[OF Cons.prems False]
    have "first_nearest_in ?pre x i" .
    from Cons.IH[OF this] False i show ?thesis
      unfolding app by (simp add: e fl_sub_def nth_append)
  qed
qed

lemma nearest_loop_first_nearest:
  assumes "tbl \<noteq> []"
  shows "\<exists>k. first_nearest_in tbl x k \<and>
           nearest_loop tbl (Fin x) (PInf, 0, '''') =
             (Fin \<bar>snd (tbl ! k) - x\<bar>, snd (tbl ! k), fst (tbl ! k))"
proof -
  from assms obtain name f rest where tbl: "tbl = (name, f) # rest"
    by (cases tbl) auto
  have "first_nearest_in [(name, f)] x 0"
    by (simp add: first_nearest_in_def)
  from nearest_loop_invariant[OF this, of rest] show ?thesis
    by (simp add: tbl fl_sub_def)
qed

lemma resolve_auto:
  "\<exists>i. first_nearest_in GUITAR_STRINGS x i \<and>
        resolve_target None (Fin x) = (snd (GUITAR_STRINGS ! i), fst (GUITAR_STRINGS ! i))"
proof -
  have "GUITAR_STRINGS \<noteq> []" by (simp add: GUITAR_STRINGS_def)
  from nearest_loop_first_nearest[OF this, of x] show ?thesis
    by (auto simp: resolve_target_def truthy_def)
qed

section \<open>The failed search\<close>

lemma find_peak_IndexError:
  "find_peak corr = Inl IndexError \<longleftrightarrow> (\<forall>i. Suc i < length corr \<longrightarrow> \<not> 0 < corr ! Suc i - corr ! i)"
proof -
  have ne: "np_argmax (drop s corr) \<noteq> Inl IndexError" for s
    by (cases "drop s corr") auto
  have "find_peak corr = Inl IndexError \<longleftrightarrow> first_positive (np_diff corr) = None"
    using ne by (auto simp: find_peak_def split: option.splits sum.splits)
  also have "\<dots> \<longleftrightarrow> (\<forall>i<length (np_diff corr). \<not> 0 < np_diff corr ! i)"
    by (simp add: first_positive_None all_set_conv_all_nth)
  also have "\<dots> \<longleftrightarrow> (\<forall>i. Suc i < length corr \<longrightarrow> \<not> 0 < corr ! Suc i - corr ! i)"
    by (auto simp: length_np_diff nth_np_diff less_diff_conv)
  finally show ?thesis .
qed

section \<open>Rounded values\<close>


lemma round_fp_binade:
  assumes "2 powr of_int k \<le> \<bar>x\<bar>" "\<bar>x\<bar> < 2 powr of_int (k + 1)"
    and "2 powr (of_int k - real p + 1) = u" and "rne (x / u) = m"
  shows "round_fp p x = of_int m * u"
proof -
  have pos: "0 < \<bar>x\<bar>"
    using assms(1) by (smt (verit) powr_gt_zero)
  then have "\<lfloor>log 2 \<bar>x\<bar>\<rfloor> = k"
    using assms(1,2) by (simp add: floor_log_eq_powr_iff)
  with pos assms(3,4) show ?thesis by (simp add: round_fp_def Let_def)
qed

lemma f32_NOISE_THRESHOLD: "f32 NOISE_THRESHOLD = 5368709 / 268435456"
proof -
  have "round_fp 24 (2 / 100) = of_int 10737418 * (1 / 536870912)"
    by (rule round_fp_binade [where k = "- 6"])
       (simp_all add: powr_neg_numeral rne_def Let_def)
  then show ?thesis by (simp add: f32_def NOISE_THRESHOLD_def)
qed

lemma f32_of_threshold: "f32 (5368709 / 268435456) = 5368709 / 268435456"
proof -
  have "round_fp 24 (5368709 / 268435456) = of_int 10737418 * (1 / 536870912)"
    by (rule round_fp_binade [where k = "- 6"])
       (simp_all add: powr_neg_numeral rne_def Let_def)
  then show ?thesis by (simp add: f32_def)
qed

lemma fl_round_id: "fl_round (\<lambda>x. x) v = v"
  by (cases v) (simp_all add: fl_round_def)

lemma peak_refined_rounded_id:
  "peak_refined_rounded (\<lambda>x. x) corr peak = peak_refined corr peak \<and>
   freq_of_rounded (\<lambda>x. x) corr peak = freq_of corr peak"
  by (simp add: peak_refined_rounded_def peak_refined_def freq_of_rounded_def freq_of_def
      fl_round_id Let_def)




lemma f64_below_one: "f64 (9007199254740991 / 9007199254740992) = 9007199254740991 / 9007199254740992"
proof -
  have "round_fp 53 (9007199254740991 / 9007199254740992) = of_int 9007199254740991 * (1 / 9007199254740992)"
    by (rule round_fp_binade [where k = "- 1"])
       (simp_all add: powr_neg_numeral rne_def Let_def)
  then show ?thesis by (simp add: f64_def)
qed






section \<open>The manual target\<close>

text \<open>
  Claim C10. A name that is neither \<^verbatim>\<open>"Auto"\<close> nor a key of the table makes
  \<^verbatim>\<open>set_manual_target\<close> raise KeyError and leaves the object as it was;
  \<^verbatim>\<open>"Auto"\<close> resets the manual target to \<^verbatim>\<open>None\<close>; a key of the table stores the
  frequency the table gives for it. The keys are the six names of
  \<open>ORDERED_KEYS\<close> (\<open>keys_GUITAR_STRINGS\<close>).
\<close>

theorem set_manual_target_cases:
  "(s \<noteq> ''Auto'' \<and> s \<notin> set (map fst GUITAR_STRINGS) \<longrightarrow>
      set_manual_target self s = (Some KeyError, self)) \<and>
   set_manual_target self ''Auto'' = (None, self\<lparr>manual_target := None\<rparr>) \<and>
   (map_of GUITAR_STRINGS n = Some f \<longrightarrow>
      set_manual_target self n = (None, self\<lparr>manual_target := Some f\<rparr>))"
  by (auto simp: set_manual_target_def GUITAR_STRINGS_def split: option.splits if_splits)

theorem set_manual_target_cases_witness:
  "set_manual_target \<lparr>manual_target = Some 110\<rparr> ''E5'' = (Some KeyError, \<lparr>manual_target = Some 110\<rparr>) \<and>
   set_manual_target \<lparr>manual_target = Some 110\<rparr> ''Auto'' = (None, \<lparr>manual_target = None\<rparr>) \<and>
   set_manual_target \<lparr>manual_target = Some 110\<rparr> ''G3'' = (None, \<lparr>manual_target = Some 196\<rparr>)"
  using set_manual_target_cases [of "''E5''" "\<lparr>manual_target = Some 110\<rparr>" "''G3''" 196]
  by (simp add: GUITAR_STRINGS_def)

section \<open>Target resolution\<close>

text \<open>
  Claim C4. When the manual target was set to a note of the table, the stored value is
  that note's frequency, and the resolver returns that frequency with that note's name
  for every detected frequency, finite or not, whichever note is nearest to it.
\<close>

theorem resolve_target_manual:
  assumes "map_of GUITAR_STRINGS n = Some f"
  shows "manual_target (snd (set_manual_target self n)) = Some f \<and>
         resolve_target (Some f) freq = (f, n)"
proof -
  have mem: "(n, f) \<in> {(''E2'', 8241 / 100), (''A2'', 110), (''D3'', 14683 / 100),
               (''G3'', 196), (''B3'', 24694 / 100), (''E4'', 32963 / 100)}"
    using assms by (simp only: map_of_GUITAR_STRINGS)
  have stored: "manual_target (snd (set_manual_target self n)) = Some f"
    using assms mem by (auto simp: set_manual_target_def)
  have "resolve_target (Some f) freq = (f, n)"
    using mem by (auto simp: resolve_target_def truthy_def GUITAR_STRINGS_def)
  with stored show ?thesis by simp
qed

theorem resolve_target_manual_witness:
  "map_of GUITAR_STRINGS ''E4'' = Some (32963 / 100) \<and>
   manual_target (snd (set_manual_target init_backend ''E4'')) = Some (32963 / 100) \<and>
   resolve_target (Some (32963 / 100)) (Fin (8241 / 100)) = (32963 / 100, ''E4'') \<and>
   resolve_target None (Fin (8241 / 100)) = (8241 / 100, ''E2'')"
proof -
  have h: "map_of GUITAR_STRINGS ''E4'' = Some (32963 / 100)"
    by (simp add: GUITAR_STRINGS_def)
  have "resolve_target None (Fin (8241 / 100)) = (8241 / 100, ''E2'')"
    by (simp add: resolve_target_def truthy_def GUITAR_STRINGS_def fl_sub_def)
  with h resolve_target_manual [OF h, of init_backend "Fin (8241 / 100)"] show ?thesis
    by simp
qed

text \<open>
  Claim C3. In automatic mode (no manual target) the resolver returns, for every
  detected frequency \<open>x\<close>, the entry of the table that minimises the distance to \<open>x\<close>
  and comes first among the entries at that distance, the table being iterated in the
  order E2, A2, D3, G3, B3, E4. Such an entry is unique (\<open>first_nearest_in_unique\<close>),
  and a frequency the detection delivers is a positive real (\<open>find_peak_freq\<close>).
\<close>

theorem resolve_target_automatic:
  "map fst GUITAR_STRINGS = [''E2'', ''A2'', ''D3'', ''G3'', ''B3'', ''E4''] \<and>
   (\<exists>i. first_nearest_in GUITAR_STRINGS x i \<and>
        resolve_target None (Fin x) = (snd (GUITAR_STRINGS ! i), fst (GUITAR_STRINGS ! i)))"
  using resolve_auto [of x] by (simp add: GUITAR_STRINGS_def)

theorem resolve_target_automatic_witness:
  "first_nearest_in GUITAR_STRINGS (96205 / 1000) 0 \<and>
   \<bar>snd (GUITAR_STRINGS ! 0) - 96205 / 1000\<bar> = \<bar>snd (GUITAR_STRINGS ! 1) - 96205 / 1000\<bar> \<and>
   resolve_target None (Fin (96205 / 1000)) = (8241 / 100, ''E2'')"
proof -
  from resolve_target_automatic [of "96205 / 1000"] obtain i where
    i: "first_nearest_in GUITAR_STRINGS (96205 / 1000) i"
       "resolve_target None (Fin (96205 / 1000)) = (snd (GUITAR_STRINGS ! i), fst (GUITAR_STRINGS ! i))"
    by blast
  have z: "first_nearest_in GUITAR_STRINGS (96205 / 1000) 0"
    by (simp add: first_nearest_in_def GUITAR_STRINGS_def All_less_Suc)
  from first_nearest_in_unique [OF i(1) z] have "i = 0" .
  with i(2) z show ?thesis by (simp add: GUITAR_STRINGS_def)
qed

section \<open>Cents\<close>

text \<open>
  Claim C2, as amended. For a target frequency other than zero, the cents value is 0
  when the ratio of detected to target frequency is not positive, and
  \<open>1200 * log 2 ratio\<close> when it is positive; and no exception leaves the computation for
  any detected frequency and any target. The claim as written also promises 0 cents for
  a zero target: the handler catches the domain error of the logarithm only, and a
  division by zero of a numpy scalar is no exception, so a zero target gives an infinite
  or NaN ratio (see the counterexample below).
\<close>

theorem cents_of_guarded:
  "(t \<noteq> 0 \<longrightarrow>
      cents_of (Fin f) t = Inr (if 0 < f / t then Fin (1200 * log 2 (f / t)) else Fin 0)) \<and>
   (\<exists>c. cents_of x t = Inr c)"
proof -
  have "\<exists>c. cents_of x t = Inr c"
    by (cases x) (auto simp: cents_of_def split: sum.splits)
  then show ?thesis by (simp add: cents_of_def)
qed

theorem cents_of_guarded_witness:
  "cents_of (Fin 113) 110 = Inr (Fin (1200 * log 2 (113 / 110))) \<and>
   cents_of (Fin (- 100)) 110 = Inr (Fin 0)"
  using cents_of_guarded [of 110 113] cents_of_guarded [of 110 "- 100"]
  by simp

text \<open>
  With a zero target, a positive detected frequency gives infinitely many cents and NaN
  gives NaN. In the loop a zero target is left by automatic mode only when the detected
  frequency is NaN.
\<close>

theorem cents_of_zero_target_counterexample:
  "cents_of (Fin 100) 0 = Inr PInf \<and> cents_of NaN 0 = Inr NaN"
  by (simp add: cents_of_def)

section \<open>Sub-sample refinement\<close>

text \<open>
  Claim C6. For a peak strictly inside the array the lag is
  \<open>peak + (c[peak-1] - c[peak+1]) / (2 * (c[peak-1] - 2*c[peak] + c[peak+1]))\<close>: this is
  the value of the expression whenever its denominator is not zero, and for the peak
  that the search delivers the denominator is not zero (in exact arithmetic) and the
  frequency is the sample rate divided by that lag. For a peak at index 0 or at the
  last index the lag is the integer peak; the search never delivers index 0, and at the
  last index the frequency is the sample rate divided by the peak.
\<close>

theorem refined_lag_of_peak:
  "(0 < peak \<and> peak < length corr - 1 \<and>
    corr ! (peak - 1) - 2 * corr ! peak + corr ! (peak + 1) \<noteq> 0 \<longrightarrow>
      peak_refined corr peak =
        Fin (real peak + (corr ! (peak - 1) - corr ! (peak + 1)) /
               (2 * (corr ! (peak - 1) - 2 * corr ! peak + corr ! (peak + 1))))) \<and>
   (find_peak corr = Inr peak \<and> 0 < peak \<and> peak < length corr - 1 \<longrightarrow>
      corr ! (peak - 1) - 2 * corr ! peak + corr ! (peak + 1) \<noteq> 0 \<and>
      freq_of corr peak =
        Fin (SAMPLE_RATE / (real peak + (corr ! (peak - 1) - corr ! (peak + 1)) /
               (2 * (corr ! (peak - 1) - 2 * corr ! peak + corr ! (peak + 1)))))) \<and>
   (\<not> (0 < peak \<and> peak < length corr - 1) \<longrightarrow>
      peak_refined corr peak = Fin (real peak)) \<and>
   (find_peak corr = Inr peak \<and> \<not> peak < length corr - 1 \<longrightarrow>
      peak = length corr - 1 \<and> freq_of corr peak = Fin (SAMPLE_RATE / real peak))"
proof -
  have general: "peak_refined corr peak =
        Fin (real peak + (corr ! (peak - 1) - corr ! (peak + 1)) /
               (2 * (corr ! (peak - 1) - 2 * corr ! peak + corr ! (peak + 1))))"
    if "0 < peak" "peak < length corr - 1"
       "corr ! (peak - 1) - 2 * corr ! peak + corr ! (peak + 1) \<noteq> 0"
    using peak_refined_interior [of peak corr] that by (simp add: denominator_def)
  have found: "corr ! (peak - 1) - 2 * corr ! peak + corr ! (peak + 1) \<noteq> 0 \<and>
      freq_of corr peak =
        Fin (SAMPLE_RATE / (real peak + (corr ! (peak - 1) - corr ! (peak + 1)) /
               (2 * (corr ! (peak - 1) - 2 * corr ! peak + corr ! (peak + 1)))))"
    if fp: "find_peak corr = Inr peak" and int: "0 < peak" "peak < length corr - 1"
  proof -
    have dn: "corr ! (peak - 1) - 2 * corr ! peak + corr ! (peak + 1) \<noteq> 0"
      using find_peak_denominator [OF fp int(2)] by (simp add: denominator_def)
    from find_peak_lag [OF fp] obtain l where
      l: "peak_refined corr peak = Fin l" "real peak - 1 / 2 < l"
      by blast
    have "0 < l" using l(2) int(1) by simp
    then have "freq_of corr peak = Fin (SAMPLE_RATE / l)"
      using l(1) by (simp add: freq_of_def)
    with l(1) general [OF int dn] dn show ?thesis by simp
  qed
  have last: "peak = length corr - 1 \<and> freq_of corr peak = Fin (SAMPLE_RATE / real peak)"
    if fp: "find_peak corr = Inr peak" and b: "\<not> peak < length corr - 1"
  proof -
    from find_peak_Inr [OF fp] have "0 < peak" "peak < length corr" by simp_all
    with b show ?thesis by (auto simp: peak_refined_boundary freq_of_def)
  qed
  show ?thesis
    using general found last by (simp add: peak_refined_boundary)
qed

theorem refined_lag_of_peak_witness:
  "find_peak [5, 1, 2, 4, 3] = Inr 3 \<and> peak_refined [5, 1, 2, 4, 3] 3 = Fin (19 / 6) \<and>
   freq_of [5, 1, 2, 4, 3] 3 = Fin (264600 / 19) \<and>
   find_peak [5, 1, 2, 4] = Inr 3 \<and> peak_refined [5, 1, 2, 4] 3 = Fin 3 \<and>
   freq_of [5, 1, 2, 4] 3 = Fin 14700"
proof -
  have a: "find_peak [5, 1, 2, 4, 3] = Inr 3"
    by (simp add: find_peak_def)
  have b: "find_peak [5, 1, 2, 4] = Inr 3"
    by (simp add: find_peak_def)
  from a b refined_lag_of_peak [of 3 "[5, 1, 2, 4, 3]"] refined_lag_of_peak [of 3 "[5, 1, 2, 4]"]
  show ?thesis
    by (simp add: SAMPLE_RATE_def)
qed




section \<open>What an iteration emits\<close>

text \<open>
  Claim C5, as amended. When the volume that line 74 computes is below the threshold as
  line 75 compares it, which is 0.02 rounded to float32, that is \<open>5368709 / 2^28\<close>, the
  iteration calls the callback with frequency 0, cents 0, the name \<^verbatim>\<open>"Silence"\<close> and
  the activity flag false, and does not pause, whatever the autocorrelation and the
  manual target are: no later stage has a part in the result.
\<close>

theorem volume_gate_silence:
  assumes "fl_lt volume (Fin (f32 NOISE_THRESHOLD))"
  shows "f32 NOISE_THRESHOLD = 5368709 / 268435456 \<and>
         process_loop_step self volume corr =
           Callback (Reading (Fin 0) (Fin 0) ''Silence'' False) False"
  using assms by (simp add: process_loop_step_def volume_gate_def f32_NOISE_THRESHOLD)

theorem volume_gate_silence_witness:
  "fl_lt (Fin 0) (Fin (f32 NOISE_THRESHOLD)) \<and>
   process_loop_step init_backend (Fin 0) (replicate BUFFER_SIZE 0) =
     Callback (Reading (Fin 0) (Fin 0) ''Silence'' False) False \<and>
   fl_lt (Fin (1 / 100)) (Fin (f32 NOISE_THRESHOLD)) \<and>
   process_loop_step init_backend (Fin (1 / 100)) [5, 1, 2, 4, 3] =
     Callback (Reading (Fin 0) (Fin 0) ''Silence'' False) False"
proof -
  have a: "fl_lt (Fin 0) (Fin (f32 NOISE_THRESHOLD))"
    by (simp add: f32_NOISE_THRESHOLD)
  have b: "fl_lt (Fin (1 / 100)) (Fin (f32 NOISE_THRESHOLD))"
    by (simp add: f32_NOISE_THRESHOLD)
  from a b volume_gate_silence [OF a, of init_backend "replicate BUFFER_SIZE 0"]
    volume_gate_silence [OF b, of init_backend "[5, 1, 2, 4, 3]"]
  show ?thesis by simp
qed

text \<open>
  The float32 number \<open>5368709 / 2^28\<close> is below 0.02, and a volume equal to it does not
  pass for silence: the iteration goes on to the search of the peak, which fails on
  this array.
\<close>

theorem volume_gate_silence_counterexample:
  "f32 (5368709 / 268435456) = 5368709 / 268435456 \<and>
   5368709 / 268435456 < NOISE_THRESHOLD \<and>
   process_loop_step init_backend (Fin (5368709 / 268435456)) [1, 0, 0, 0] = NoCallback"
proof -
  have below: "5368709 / 268435456 < NOISE_THRESHOLD"
    by (simp add: NOISE_THRESHOLD_def)
  have "\<not> volume_gate (Fin (5368709 / 268435456))"
    by (simp add: volume_gate_def f32_NOISE_THRESHOLD)
  then have "process_loop_step init_backend (Fin (5368709 / 268435456)) [1, 0, 0, 0] = NoCallback"
    by (simp add: process_loop_step_def find_peak_def)
  with f32_of_threshold below show ?thesis by blast
qed

text \<open>
  Claim C7. For a buffer that passes the volume gate, if no first difference of the
  autocorrelation is positive, or if the frequency of the peak is below 60 Hz or above
  500 Hz, the iteration does not call the callback at all.
\<close>

theorem no_detection_no_reading:
  assumes "\<not> volume_gate volume"
    and "(\<forall>i. Suc i < length corr \<longrightarrow> \<not> 0 < corr ! Suc i - corr ! i) \<or>
         (\<exists>peak. find_peak corr = Inr peak \<and>
            (fl_lt (freq_of corr peak) (Fin 60) \<or> fl_gt (freq_of corr peak) (Fin 500)))"
  shows "process_loop_step self volume corr = NoCallback"
  using assms(2)
proof
  assume "\<forall>i. Suc i < length corr \<longrightarrow> \<not> 0 < corr ! Suc i - corr ! i"
  then have "find_peak corr = Inl IndexError"
    by (simp only: find_peak_IndexError)
  with assms(1) show ?thesis by (simp add: process_loop_step_def)
next
  assume "\<exists>peak. find_peak corr = Inr peak \<and>
            (fl_lt (freq_of corr peak) (Fin 60) \<or> fl_gt (freq_of corr peak) (Fin 500))"
  with assms(1) show ?thesis by (auto simp: process_loop_step_def)
qed

theorem no_detection_no_reading_witness:
  "\<not> volume_gate (Fin 1) \<and>
   find_peak [3, 2, 2, 1] = Inl IndexError \<and>
   process_loop_step init_backend (Fin 1) [3, 2, 2, 1] = NoCallback \<and>
   find_peak [5, 1, 2, 4, 3] = Inr 3 \<and> fl_gt (freq_of [5, 1, 2, 4, 3] 3) (Fin 500) \<and>
   process_loop_step init_backend (Fin 1) [5, 1, 2, 4, 3] = NoCallback"
proof -
  have v: "\<not> volume_gate (Fin 1)"
    by (simp add: volume_gate_def f32_NOISE_THRESHOLD)
  have a: "\<forall>i. Suc i < length [3, 2, 2, 1 :: real] \<longrightarrow> \<not> 0 < [3, 2, 2, 1 :: real] ! Suc i - [3, 2, 2, 1] ! i"
    by (simp add: nth_Cons split: nat.splits)
  have a': "find_peak [3, 2, 2, 1] = Inl IndexError"
    by (simp add: find_peak_def)
  have b: "find_peak [5, 1, 2, 4, 3] = Inr 3"
    by (simp add: find_peak_def)
  have c: "fl_gt (freq_of [5, 1, 2, 4, 3] 3) (Fin 500)"
    by (simp add: freq_of_def peak_refined_def fl_gt_def SAMPLE_RATE_def)
  have d: "\<exists>peak. find_peak [5, 1, 2, 4, 3] = Inr peak \<and>
            (fl_lt (freq_of [5, 1, 2, 4, 3] peak) (Fin 60) \<or> fl_gt (freq_of [5, 1, 2, 4, 3] peak) (Fin 500))"
    using b c by blast
  from no_detection_no_reading [OF v disjI1, OF a, of init_backend]
       no_detection_no_reading [OF v disjI2, OF d, of init_backend] v a' b c
  show ?thesis by simp
qed

section \<open>Display\<close>

text \<open>
  Claim C8. For every real cents value the bar shows \<open>(cents + 50) / 100\<close> clamped to
  the interval from 0 to 1: the mapping is monotone, sends -100 to 0, 0 to one half and
  100 to 1, and is constant below -50 (at 0) and above 50 (at 1).
\<close>

theorem normalized_val_clamp:
  "normalized_val (Fin c) = Fin (max 0 (min 1 ((c + 50) / 100))) \<and>
   (c \<le> c' \<longrightarrow> fl_le (normalized_val (Fin c)) (normalized_val (Fin c'))) \<and>
   normalized_val (Fin (- 100)) = Fin 0 \<and>
   normalized_val (Fin 0) = Fin (1 / 2) \<and>
   normalized_val (Fin 100) = Fin 1 \<and>
   (c \<le> - 50 \<longrightarrow> normalized_val (Fin c) = Fin 0) \<and>
   (50 \<le> c \<longrightarrow> normalized_val (Fin c) = Fin 1)"
proof -
  have eq: "normalized_val (Fin d) = Fin (max 0 (min 1 ((d + 50) / 100)))" for d
    by (simp add: normalized_val_def py_max_def py_min_def fl_gt_def max_def min_def)
  have mono: "c \<le> c' \<Longrightarrow> fl_le (normalized_val (Fin c)) (normalized_val (Fin c'))"
    unfolding eq by (auto simp: fl_le_def max_def min_def)
  show ?thesis using mono by (simp add: eq)
qed

theorem normalized_val_clamp_witness:
  "normalized_val (Fin (- 60)) = Fin 0 \<and> normalized_val (Fin 70) = Fin 1 \<and>
   fl_le (normalized_val (Fin (- 60))) (normalized_val (Fin 70)) \<and>
   normalized_val (Fin 20) = Fin (7 / 10)"
  using normalized_val_clamp [of "- 60" 70] normalized_val_clamp [of 70 70]
    normalized_val_clamp [of 20 20]
  by (simp add: fl_le_def)

text \<open>
  Claim C9. The guide is PERFECT exactly when the absolute value of the cents is below 5
  (so at 0), flat exactly when the cents are at most -5, and sharp exactly when they are
  at least 5; the three conditions exclude each other and cover every real number, and
  the infinities fall on the side of their sign.
\<close>

theorem guide_of_partition:
  "(guide_of (Fin c) = PERFECT \<longleftrightarrow> \<bar>c\<bar> < 5) \<and>
   (guide_of (Fin c) = TooFlat \<longleftrightarrow> c \<le> - 5) \<and>
   (guide_of (Fin c) = TooSharp \<longleftrightarrow> 5 \<le> c) \<and>
   guide_of (Fin 0) = PERFECT \<and>
   guide_of NInf = TooFlat \<and> guide_of PInf = TooSharp"
  by (auto simp: guide_of_def)

text \<open>NaN compares false with everything and takes the last branch.\<close>

lemma guide_of_NaN: "guide_of NaN = TooSharp"
  by (simp add: guide_of_def)

end
